theory Spec2Isabelle
  imports Complex_Main "HOL-Library.Log_Nat"
begin

section \<open>JavaScript values used by VerifyThisJS and NumFunJS\<close>

text \<open>
  A JavaScript number is \<open>NaN\<close>, one of the two infinities, or a finite binary64
  value. A finite value is represented by the rational it denotes, so \<open>+0\<close> and \<open>-0\<close>
  are the same \<open>Fin 0\<close> (the code below never tells them apart: \<open><\<close>, \<open>></\<close>, \<open>===\<close>,
  truthiness and \<open>Array.prototype.includes\<close> all identify them). \<open>Fin x\<close> is a number
  of the program when \<open>x\<close> is a binary64 value (\<open>is_double\<close> below); every arithmetic
  operation rounds its exact result to binary64 and so yields such values.
\<close>

datatype jsnum = NaN | NegInf | Fin rat | PosInf

text \<open>The relational operators \<open><\<close>, \<open>></\<close>, \<open><=\<close>: every comparison with \<open>NaN\<close> is false.\<close>

fun js_lt :: "jsnum \<Rightarrow> jsnum \<Rightarrow> bool" where
  "js_lt NaN _ = False"
| "js_lt _ NaN = False"
| "js_lt (Fin x) (Fin y) = (x < y)"
| "js_lt NegInf NegInf = False"
| "js_lt NegInf _ = True"
| "js_lt PosInf _ = False"
| "js_lt (Fin x) PosInf = True"
| "js_lt (Fin x) NegInf = False"

definition js_gt :: "jsnum \<Rightarrow> jsnum \<Rightarrow> bool" where
  "js_gt a b = js_lt b a"

definition js_le :: "jsnum \<Rightarrow> jsnum \<Rightarrow> bool" where
  "js_le a b = (a \<noteq> NaN \<and> b \<noteq> NaN \<and> \<not> js_lt b a)"

text \<open>Strict equality \<open>===\<close> on numbers: \<open>NaN\<close> is not equal to itself.\<close>

definition js_seq :: "jsnum \<Rightarrow> jsnum \<Rightarrow> bool" where
  "js_seq a b = (a \<noteq> NaN \<and> a = b)"

text \<open>\<open>ToBoolean\<close> of a number: \<open>0\<close> and \<open>NaN\<close> are falsy.\<close>

definition truthy_num :: "jsnum \<Rightarrow> bool" where
  "truthy_num a = (a \<noteq> NaN \<and> a \<noteq> Fin 0)"

text \<open>
  A rule such as \<open>minChars = null\<close> holds \<open>null\<close> or a number: \<open>None\<close> is \<open>null\<close>.
  \<open>truthy\<close> is \<open>ToBoolean\<close> of such a field.
\<close>

fun truthy :: "jsnum option \<Rightarrow> bool" where
  "truthy None = False"
| "truthy (Some a) = truthy_num a"

text \<open>
  The values a caller can pass. \<open>JStringObj\<close> is a \<open>String\<close> wrapper object (what
  \<open>this\<close> is inside a method of \<open>StringFun extends String\<close>); \<open>JObject\<close> stands for
  every other object, identified by an address.
\<close>

datatype jsval =
    JUndefined
  | JNull
  | JBool bool
  | JNum jsnum
  | JBigInt int
  | JStr string
  | JSymbol nat
  | JFunction nat
  | JStringObj string
  | JArray "jsval list"
  | JObject nat

fun typeof :: "jsval \<Rightarrow> string" where
  "typeof JUndefined = ''undefined''"
| "typeof JNull = ''object''"
| "typeof (JBool b) = ''boolean''"
| "typeof (JNum n) = ''number''"
| "typeof (JBigInt i) = ''bigint''"
| "typeof (JStr s) = ''string''"
| "typeof (JSymbol a) = ''symbol''"
| "typeof (JFunction a) = ''function''"
| "typeof (JStringObj s) = ''object''"
| "typeof (JArray xs) = ''object''"
| "typeof (JObject a) = ''object''"

text \<open>
  \<open>arr.findIndex(p)\<close>: the index of the first element satisfying \<open>p\<close>, \<open>None\<close> for the
  result \<open>-1\<close>.
\<close>

fun findIndex :: "('a \<Rightarrow> bool) \<Rightarrow> 'a list \<Rightarrow> nat option" where
  "findIndex p [] = None"
| "findIndex p (x # xs) =
     (if p x then Some 0
      else (case findIndex p xs of None \<Rightarrow> None | Some i \<Rightarrow> Some (Suc i)))"

section \<open>Errors\<close>

text \<open>
  A thrown exception is its constructor together with its message. The messages are
  template literals; they are kept structured, one constructor per template, with the
  interpolated values as arguments.
\<close>

datatype message =
    NotAString
  | IsEmpty string
  | HasLessChars string jsnum
  | HasMoreChars string jsnum
  | CharNotAllowed "string list"
  | NotANumber
  | NumNotAllowed string
  | IsMoreThan string jsnum
  | NotAnArray
  | ArrayIsEmpty
  | ElementIsNot nat "string list"
  | ArrayHasLess jsnum
  | ArrayHasMore jsnum
  | MinEqualsMax
  | MinMoreThanMax
  | ToFixedDigits
  | MissingProperty nat string
  | SumMoreThan100
  | NotDefined string

datatype js_error =
    Error message
  | TypeError message
  | RangeError message
  | ReferenceError message

section \<open>VerifyThis\<close>

record string_rules =
  s_canEmpty :: bool
  minChars :: "jsnum option"
  maxChars :: "jsnum option"
  s_alias :: string
  allowedChars :: "string list"

definition default_string_rules :: string_rules where
  "default_string_rules =
     \<lparr>s_canEmpty = False, minChars = None, maxChars = None, s_alias = ''String'',
      allowedChars = []\<rparr>"

record number_rules =
  n_min :: "jsnum option"
  maxValue :: "jsnum option"
  n_alias :: string
  allowedNums :: "jsnum list"
  allowedNumsAlias :: string

definition default_number_rules :: number_rules where
  "default_number_rules =
     \<lparr>n_min = None, maxValue = None, n_alias = ''Number'', allowedNums = [],
      allowedNumsAlias = ''number''\<rparr>"

record array_rules =
  a_canEmpty :: bool
  minElements :: "jsnum option"
  maxElements :: "jsnum option"
  arrayOf :: "string list"

definition default_array_rules :: array_rules where
  "default_array_rules =
     \<lparr>a_canEmpty = False, minElements = None, maxElements = None, arrayOf = []\<rparr>"

text \<open>
  \<open>VerifyThis.string\<close>. After the type test \<open>str\<close> is a primitive string or a
  \<open>String\<close> object. \<open>!str\<close> is true of the empty primitive string only (an object is
  truthy); \<open>allowedChars.includes(str)\<close> compares with \<open>SameValueZero\<close>, so a
  \<open>String\<close> object is never found among the primitive strings of \<open>allowedChars\<close>.
\<close>

fun str_falsy :: "jsval \<Rightarrow> bool" where
  "str_falsy (JStr s) = (s = [])"
| "str_falsy _ = False"

fun str_length :: "jsval \<Rightarrow> jsnum" where
  "str_length (JStr s) = Fin (of_nat (length s))"
| "str_length (JStringObj s) = Fin (of_nat (length s))"
| "str_length _ = NaN"

fun includes_str :: "string list \<Rightarrow> jsval \<Rightarrow> bool" where
  "includes_str cs (JStr s) = (s \<in> set cs)"
| "includes_str cs _ = False"

fun is_string :: "jsval \<Rightarrow> bool" where
  "is_string (JStr s) = True"
| "is_string (JStringObj s) = True"
| "is_string _ = False"

definition VerifyThis_string :: "jsval \<Rightarrow> string_rules \<Rightarrow> js_error + unit" where
  "VerifyThis_string str rules =
     (if \<not> is_string str then Inl (TypeError NotAString)
      else if \<not> s_canEmpty rules \<and> str_falsy str then Inl (Error (IsEmpty (s_alias rules)))
      else if truthy (minChars rules) \<and> js_lt (str_length str) (the (minChars rules))
        then Inl (Error (HasLessChars (s_alias rules) (the (minChars rules))))
      else if truthy (maxChars rules) \<and> js_gt (str_length str) (the (maxChars rules))
        then Inl (Error (HasMoreChars (s_alias rules) (the (maxChars rules))))
      else if maxChars rules = Some (Fin 1) \<and> \<not> includes_str (allowedChars rules) str
        then Inl (Error (CharNotAllowed (allowedChars rules)))
      else Inr ())"

text \<open>
  \<open>VerifyThis.number\<close>. The message of the \<open>RangeError\<close> of the minimum check
  interpolates \<open>minValue\<close>, an identifier that is declared nowhere: evaluating the
  template literal throws \<open>ReferenceError: minValue is not defined\<close> before the
  \<open>RangeError\<close> is constructed.
\<close>

fun is_number :: "jsval \<Rightarrow> bool" where
  "is_number (JNum n) = True"
| "is_number _ = False"

fun num_of :: "jsval \<Rightarrow> jsnum" where
  "num_of (JNum n) = n"
| "num_of _ = NaN"

definition VerifyThis_number :: "jsval \<Rightarrow> number_rules \<Rightarrow> js_error + unit" where
  "VerifyThis_number num rules =
     (if \<not> is_number num then Inl (TypeError NotANumber)
      else if length (allowedNums rules) > 0 \<and> num_of num \<notin> set (allowedNums rules)
        then Inl (Error (NumNotAllowed (allowedNumsAlias rules)))
      else if (truthy (n_min rules) \<or> n_min rules = Some (Fin 0))
              \<and> js_lt (num_of num) (the (n_min rules))
        then Inl (ReferenceError (NotDefined ''minValue''))
      else if truthy (maxValue rules) \<and> js_gt (num_of num) (the (maxValue rules))
        then Inl (RangeError (IsMoreThan (n_alias rules) (the (maxValue rules))))
      else Inr ())"

text \<open>\<open>VerifyThis.array\<close>.\<close>

fun is_array :: "jsval \<Rightarrow> bool" where
  "is_array (JArray xs) = True"
| "is_array _ = False"

fun elements :: "jsval \<Rightarrow> jsval list" where
  "elements (JArray xs) = xs"
| "elements _ = []"

definition arr_length :: "jsval \<Rightarrow> jsnum" where
  "arr_length arr = Fin (of_nat (length (elements arr)))"

definition VerifyThis_array :: "jsval \<Rightarrow> array_rules \<Rightarrow> js_error + unit" where
  "VerifyThis_array arr rules =
     (if \<not> is_array arr then Inl (Error NotAnArray)
      else if \<not> a_canEmpty rules \<and> length (elements arr) < 1 then Inl (Error ArrayIsEmpty)
      else (case (if length (arrayOf rules) > 0
                  then findIndex (\<lambda>element. typeof element \<notin> set (arrayOf rules))
                         (elements arr)
                  else None) of
              Some indexEl \<Rightarrow> Inl (TypeError (ElementIsNot indexEl (arrayOf rules)))
            | None \<Rightarrow>
                if truthy (minElements rules)
                   \<and> js_lt (arr_length arr) (the (minElements rules))
                  then Inl (Error (ArrayHasLess (the (minElements rules))))
                else if truthy (maxElements rules)
                   \<and> js_gt (arr_length arr) (the (maxElements rules))
                  then Inl (Error (ArrayHasMore (the (maxElements rules))))
                else Inr ()))"

section \<open>Rounding to binary64\<close>

text \<open>
  The integer nearest to a rational, the even one on a tie.
\<close>

definition round_half_even :: "rat \<Rightarrow> int" where
  "round_half_even q =
     (if q - of_int \<lfloor>q\<rfloor> < 1 / 2 then \<lfloor>q\<rfloor>
      else if 1 / 2 < q - of_int \<lfloor>q\<rfloor> then \<lfloor>q\<rfloor> + 1
      else if even \<lfloor>q\<rfloor> then \<lfloor>q\<rfloor> else \<lfloor>q\<rfloor> + 1)"

text \<open>
  The binary exponent of a rational \<open>x \<noteq> 0\<close>: the \<open>e\<close> with \<open>2^e \<le> |x| < 2^(e+1)\<close>
  (\<open>exponent_bounds\<close> below). It is the difference of the bit lengths of numerator
  and denominator, or one less.
\<close>

definition exponent :: "rat \<Rightarrow> int" where
  "exponent x =
     (if 2 powi (bitlen (fst (quotient_of \<bar>x\<bar>)) - bitlen (snd (quotient_of \<bar>x\<bar>))) \<le> \<bar>x\<bar>
      then bitlen (fst (quotient_of \<bar>x\<bar>)) - bitlen (snd (quotient_of \<bar>x\<bar>))
      else bitlen (fst (quotient_of \<bar>x\<bar>)) - bitlen (snd (quotient_of \<bar>x\<bar>)) - 1)"

text \<open>
  The spacing of the binary64 values around \<open>x\<close>: 53 significant bits, and the
  spacing \<open>2^-1074\<close> of the subnormal values below \<open>2^-1022\<close>.
\<close>

definition ulp :: "rat \<Rightarrow> rat" where
  "ulp x = 2 powi (max (exponent x) (- 1022) - 52)"

text \<open>
  Round to nearest, ties to even: \<open>|x|\<close> becomes the nearest multiple
  \<open>n * ulp x\<close> of the spacing. The result overflows to an infinity when that multiple
  reaches \<open>2^1024\<close>, which is when the exponent of \<open>x\<close> is at least 1024, or is 1023 and
  \<open>n\<close> has reached \<open>2^53\<close>.
\<close>

definition round_double :: "rat \<Rightarrow> jsnum" where
  "round_double x =
     (if x = 0 then Fin 0
      else if 1024 \<le> exponent x
              \<or> (exponent x = 1023 \<and> 2 ^ 53 \<le> round_half_even (\<bar>x\<bar> / ulp x))
        then (if x < 0 then NegInf else PosInf)
      else Fin (sgn x * (of_int (round_half_even (\<bar>x\<bar> / ulp x)) * ulp x)))"

text \<open>The binary64 values are the rationals that rounding leaves alone.\<close>

definition is_double :: "rat \<Rightarrow> bool" where
  "is_double x = (round_double x = Fin x)"

section \<open>Number arithmetic\<close>

text \<open>
  The arithmetic operators on numbers: the exact result rounded to binary64, with the
  IEEE rules for \<open>NaN\<close> and the infinities. Division is only used with a positive power
  of ten as divisor; a zero divisor is taken to be \<open>+0\<close>.
\<close>

fun js_neg :: "jsnum \<Rightarrow> jsnum" where
  "js_neg NaN = NaN"
| "js_neg NegInf = PosInf"
| "js_neg (Fin x) = Fin (- x)"
| "js_neg PosInf = NegInf"

fun js_add :: "jsnum \<Rightarrow> jsnum \<Rightarrow> jsnum" where
  "js_add NaN _ = NaN"
| "js_add _ NaN = NaN"
| "js_add (Fin x) (Fin y) = round_double (x + y)"
| "js_add PosInf NegInf = NaN"
| "js_add NegInf PosInf = NaN"
| "js_add PosInf _ = PosInf"
| "js_add NegInf _ = NegInf"
| "js_add (Fin x) PosInf = PosInf"
| "js_add (Fin x) NegInf = NegInf"

definition js_sub :: "jsnum \<Rightarrow> jsnum \<Rightarrow> jsnum" where
  "js_sub a b = js_add a (js_neg b)"

text \<open>The sign of a number other than \<open>NaN\<close>: \<open>-1\<close>, \<open>0\<close> or \<open>1\<close>.\<close>

fun js_sign :: "jsnum \<Rightarrow> rat" where
  "js_sign NaN = 0"
| "js_sign NegInf = - 1"
| "js_sign (Fin x) = sgn x"
| "js_sign PosInf = 1"

definition inf_of_sign :: "rat \<Rightarrow> jsnum" where
  "inf_of_sign s = (if s = 0 then NaN else if s < 0 then NegInf else PosInf)"

fun js_mul :: "jsnum \<Rightarrow> jsnum \<Rightarrow> jsnum" where
  "js_mul NaN _ = NaN"
| "js_mul _ NaN = NaN"
| "js_mul (Fin x) (Fin y) = round_double (x * y)"
| "js_mul a b = inf_of_sign (js_sign a * js_sign b)"

fun js_div :: "jsnum \<Rightarrow> jsnum \<Rightarrow> jsnum" where
  "js_div NaN _ = NaN"
| "js_div _ NaN = NaN"
| "js_div (Fin x) (Fin y) = (if y = 0 then inf_of_sign (sgn x) else round_double (x / y))"
| "js_div (Fin x) _ = Fin 0"
| "js_div a (Fin y) = inf_of_sign (js_sign a * (if y < 0 then - 1 else 1))"
| "js_div a b = NaN"

text \<open>\<open>Math.floor\<close>: the floor of a binary64 value is a binary64 value.\<close>

fun Math_floor :: "jsnum \<Rightarrow> jsnum" where
  "Math_floor (Fin x) = Fin (of_int \<lfloor>x\<rfloor>)"
| "Math_floor a = a"

text \<open>
  \<open>Math.pow(10, d)\<close> and \<open>10 ** d\<close> for a natural number \<open>d\<close>: the binary64 value
  of \<open>10^d\<close>, which is \<open>10^d\<close> itself up to \<open>d = 22\<close>. The call
  \<open>Random.floatBetween(0, 100)\<close> of \<open>execProb\<close> has \<open>d = 1\<close>.
\<close>

definition pow10 :: "nat \<Rightarrow> jsnum" where
  "pow10 d = round_double (10 ^ d)"

text \<open>
  \<open>Number(x.toFixed(d))\<close> for \<open>0 \<le> d \<le> 100\<close>. \<open>toFixed\<close> prints, for a finite \<open>x\<close>
  below \<open>10^21\<close> in magnitude, the decimal \<open>n / 10^d\<close> for the integer \<open>n\<close> nearest to
  \<open>|x| * 10^d\<close> (the larger one on a tie), with the sign of \<open>x\<close>, and \<open>Number\<close> reads
  that decimal back as the nearest binary64 value; every other number is printed and
  read back unchanged.
\<close>

fun toFixed_Number :: "nat \<Rightarrow> jsnum \<Rightarrow> jsnum" where
  "toFixed_Number d (Fin x) =
     (if \<bar>x\<bar> \<ge> 10 ^ 21 then Fin x
      else round_double (sgn x * of_int \<lfloor>\<bar>x\<bar> * 10 ^ d + 1 / 2\<rfloor> / 10 ^ d))"
| "toFixed_Number d a = a"

section \<open>Random\<close>

text \<open>
  Sequencing of a validation with the rest of a function body: a thrown exception
  leaves the function.
\<close>

fun and_then :: "js_error + unit \<Rightarrow> js_error + 'a \<Rightarrow> js_error + 'a" where
  "and_then (Inl e) k = Inl e"
| "and_then (Inr u) k = k"

text \<open>
  \<open>Random.intBetween\<close>. The result of the one call of \<open>Math.random()\<close> is the
  argument \<open>u\<close>: a binary64 value with \<open>0 \<le> u < 1\<close>.
\<close>

definition Math_random :: "rat \<Rightarrow> bool" where
  "Math_random u = (is_double u \<and> 0 \<le> u \<and> u < 1)"

definition intBetween :: "jsval \<Rightarrow> jsval \<Rightarrow> rat \<Rightarrow> js_error + jsnum" where
  "intBetween mn mx u =
     and_then (VerifyThis_number mn (default_number_rules\<lparr>n_alias := ''Minimun value''\<rparr>))
    (and_then (VerifyThis_number mx (default_number_rules\<lparr>n_alias := ''Maximun value''\<rparr>))
     (if js_seq (num_of mn) (num_of mx) then Inl (Error MinEqualsMax)
      else if js_gt (num_of mn) (num_of mx) then Inl (RangeError MinMoreThanMax)
      else Inr (js_add
             (Math_floor (js_mul (Fin u) (js_add (js_sub (num_of mx) (num_of mn)) (Fin 1))))
             (num_of mn))))"

text \<open>
  \<open>Random.floatBetween\<close>, for a number of decimals that is a natural number; the
  default of the parameter is \<open>1\<close>. \<open>toFixed\<close> throws a \<open>RangeError\<close> for more than
  100 digits.
\<close>

definition floatBetween :: "jsval \<Rightarrow> jsval \<Rightarrow> nat \<Rightarrow> rat \<Rightarrow> js_error + jsnum" where
  "floatBetween mn mx decimals u =
     and_then (VerifyThis_number mn (default_number_rules\<lparr>n_alias := ''Minimum value''\<rparr>))
    (and_then (VerifyThis_number mx (default_number_rules\<lparr>n_alias := ''Maximum value''\<rparr>))
    (and_then (VerifyThis_number (JNum (Fin (of_nat decimals)))
                 (default_number_rules\<lparr>n_alias := ''Number of decimals'',
                    n_min := Some (Fin 1)\<rparr>))
     (if js_seq (num_of mn) (num_of mx) then Inl (Error MinEqualsMax)
      else if js_gt (num_of mn) (num_of mx) then Inl (RangeError MinMoreThanMax)
      else (case intBetween (JNum (js_mul (num_of mn) (pow10 decimals)))
                   (JNum (js_mul (num_of mx) (pow10 decimals))) u of
              Inl e \<Rightarrow> Inl e
            | Inr i \<Rightarrow>
                if decimals > 100 then Inl (RangeError ToFixedDigits)
                else Inr (toFixed_Number decimals (js_div i (pow10 decimals)))))))"

definition floatBetween_default :: nat where
  "floatBetween_default = 1"

section \<open>Probability\<close>

text \<open>
  An element of the array given to \<open>execProb\<close> is an object that may or may not have
  the own properties \<open>el\<close> and \<open>prob\<close>; \<open>prob\<close>, when present, is a number.
\<close>

record 'a ProbInfo =
  el :: "'a option"
  prob :: "jsnum option"

text \<open>
  The destructuring \<open>{prob: percent}\<close>: a missing property reads as \<open>undefined\<close>, and
  adding \<open>undefined\<close> to a number gives \<open>NaN\<close>.
\<close>

fun percent :: "'a ProbInfo \<Rightarrow> jsnum" where
  "percent e = (case prob e of Some w \<Rightarrow> w | None \<Rightarrow> NaN)"

text \<open>The first loop: \<open>checkPercent += percent\<close> for each element in order.\<close>

fun checkPercent :: "jsnum \<Rightarrow> 'a ProbInfo list \<Rightarrow> jsnum" where
  "checkPercent acc [] = acc"
| "checkPercent acc (e # es) = checkPercent (js_add acc (percent e)) es"

text \<open>
  The second loop: the item of the first element at which \<open>num <= currentProb\<close> is
  returned; falling off the end returns \<open>undefined\<close>, which is \<open>None\<close> here.
\<close>

fun walk :: "jsnum \<Rightarrow> jsnum \<Rightarrow> 'a ProbInfo list \<Rightarrow> 'a option" where
  "walk num currentProb [] = None"
| "walk num currentProb (e # es) =
     (if js_le num (js_add currentProb (percent e)) then el e
      else walk num (js_add currentProb (percent e)) es)"

definition execProb :: "'a ProbInfo list \<Rightarrow> rat \<Rightarrow> js_error + 'a option" where
  "execProb arr u =
     (case findIndex (\<lambda>element. el element = None) arr of
        Some indexEl \<Rightarrow> Inl (ReferenceError (MissingProperty indexEl ''el''))
      | None \<Rightarrow>
     (case findIndex (\<lambda>element. prob element = None) arr of
        Some indexProb \<Rightarrow> Inl (ReferenceError (MissingProperty indexProb ''prob''))
      | None \<Rightarrow>
          if js_gt (checkPercent (Fin 0) arr) (Fin 100) then Inl (Error SumMoreThan100)
          else (case floatBetween (JNum (Fin 0)) (JNum (Fin 100)) floatBetween_default u of
                  Inl e \<Rightarrow> Inl e
                | Inr num \<Rightarrow> Inr (walk num (Fin 0) arr))))"

section \<open>The weighted selection as the specification words it\<close>

text \<open>
  The entries of a well-formed list have an item and a weight.
\<close>

definition has_both :: "'a ProbInfo \<Rightarrow> bool" where
  "has_both e = (el e \<noteq> None \<and> prob e \<noteq> None)"

text \<open>
  The weights in list order, their sum, and the running total after the entry at
  index \<open>i\<close>: sums of numbers, accumulated from 0 in list order with the addition of
  the language.
\<close>

definition weights :: "'a ProbInfo list \<Rightarrow> jsnum list" where
  "weights arr = map (\<lambda>e. case prob e of Some w \<Rightarrow> w | None \<Rightarrow> NaN) arr"

definition total_weight :: "'a ProbInfo list \<Rightarrow> jsnum" where
  "total_weight arr = foldl js_add (Fin 0) (weights arr)"

definition cumulative :: "'a ProbInfo list \<Rightarrow> nat \<Rightarrow> jsnum" where
  "cumulative arr i = foldl js_add (Fin 0) (weights (take (Suc i) arr))"

text \<open>
  The selection for a draw \<open>r\<close>: the item of the first entry whose running total is at
  least \<open>r\<close>, and no selection when there is none.
\<close>

definition select_spec :: "'a ProbInfo list \<Rightarrow> jsnum \<Rightarrow> 'a option" where
  "select_spec arr r =
     (case find (\<lambda>i. js_le r (cumulative arr i)) [0..<length arr] of
        None \<Rightarrow> None
      | Some i \<Rightarrow> el (arr ! i))"

section \<open>Auxiliary facts\<close>

subsection \<open>Rounding\<close>

lemma bitlen_powi_bounds:
  assumes "0 < m"
  shows "2 powi (bitlen m - 1) \<le> (of_int m :: rat)" and "(of_int m :: rat) < 2 powi (bitlen m)"
proof -
  from bitlen_bounds[OF assms]
  have lo: "2 ^ nat (bitlen m - 1) \<le> m" and hi: "m < 2 ^ nat (bitlen m)" by simp_all
  from assms have b1: "1 \<le> bitlen m" using bitlen_eq_zero_iff[of m] bitlen_nonneg[of m] by linarith
  have "(2::rat) powi (bitlen m - 1) = 2 ^ nat (bitlen m - 1)"
    using b1 by (simp add: power_int_nonneg_exp)
  also have "\<dots> = of_int (2 ^ nat (bitlen m - 1))" by simp
  also have "\<dots> \<le> of_int m" using lo by (simp only: of_int_le_iff)
  finally show "2 powi (bitlen m - 1) \<le> (of_int m :: rat)" .
  have "(of_int m :: rat) < of_int (2 ^ nat (bitlen m))" using hi by (simp only: of_int_less_iff)
  also have "\<dots> = 2 ^ nat (bitlen m)" by simp
  also have "\<dots> = 2 powi (bitlen m)" using b1 by (simp add: power_int_nonneg_exp)
  finally show "(of_int m :: rat) < 2 powi (bitlen m)" .
qed

lemma exponent_bounds:
  assumes "x \<noteq> 0"
  shows "2 powi (exponent x) \<le> \<bar>x\<bar>" and "\<bar>x\<bar> < 2 powi (exponent x + 1)"
proof -
  obtain p q where pq: "quotient_of \<bar>x\<bar> = (p, q)" by (cases "quotient_of \<bar>x\<bar>")
  have q: "0 < q" using quotient_of_denom_pos[OF pq] .
  have ax: "\<bar>x\<bar> = of_int p / of_int q" using quotient_of_div[OF pq] .
  have "0 < \<bar>x\<bar>" using assms by simp
  with ax q have p: "0 < p" by (simp add: zero_less_divide_iff)
  let ?e = "bitlen p - bitlen q"
  have qpos: "(0::rat) < of_int q" using q by simp
  have up: "\<bar>x\<bar> < 2 powi (?e + 1)"
  proof -
    have "of_int p < (2::rat) powi (bitlen p)" using bitlen_powi_bounds(2)[OF p] .
    also have "\<dots> = 2 powi (?e + 1) * 2 powi (bitlen q - 1)"
      by (simp flip: power_int_add)
    also have "\<dots> \<le> 2 powi (?e + 1) * of_int q"
      using bitlen_powi_bounds(1)[OF q] by (intro mult_left_mono) simp_all
    finally show ?thesis using qpos by (simp add: ax pos_divide_less_eq)
  qed
  have lo: "2 powi (?e - 1) \<le> \<bar>x\<bar>"
  proof -
    have "(2::rat) powi (?e - 1) * of_int q \<le> 2 powi (?e - 1) * 2 powi (bitlen q)"
      using bitlen_powi_bounds(2)[OF q] by (intro mult_left_mono) simp_all
    also have "\<dots> = 2 powi (bitlen p - 1)" by (simp flip: power_int_add)
    also have "\<dots> \<le> of_int p" using bitlen_powi_bounds(1)[OF p] .
    finally show ?thesis using qpos by (simp add: ax pos_le_divide_eq)
  qed
  have ex: "exponent x = (if 2 powi ?e \<le> \<bar>x\<bar> then ?e else ?e - 1)"
    by (simp add: exponent_def pq)
  show "2 powi (exponent x) \<le> \<bar>x\<bar>" using lo by (simp add: ex)
  show "\<bar>x\<bar> < 2 powi (exponent x + 1)" using up by (auto simp: ex)
qed

lemma exponent_unique:
  assumes "2 powi e \<le> \<bar>x\<bar>" and "\<bar>x\<bar> < 2 powi (e + 1)"
  shows "exponent x = e"
proof -
  have pos: "(0::rat) < 2 powi e" by simp
  have nz: "x \<noteq> 0"
  proof
    assume "x = 0"
    with assms(1) pos show False by simp
  qed
  note b = exponent_bounds[OF nz]
  have "(2::rat) powi e < 2 powi (exponent x + 1)" using assms(1) b(2) by linarith
  then have 1: "e < exponent x + 1"
    by (metis power_int_increasing not_le_imp_less one_le_numeral not_less)
  have "(2::rat) powi (exponent x) < 2 powi (e + 1)" using assms(2) b(1) by linarith
  then have 2: "exponent x < e + 1"
    by (metis power_int_increasing not_le_imp_less one_le_numeral not_less)
  from 1 2 show ?thesis by linarith
qed

lemma round_half_even_error: "\<bar>of_int (round_half_even q) - q\<bar> \<le> 1 / 2"
  unfolding round_half_even_def by (auto simp: abs_if) linarith+

lemma round_half_even_of_int [simp]: "round_half_even (of_int n) = n"
  by (simp add: round_half_even_def)

lemma round_half_even_nonneg: "0 \<le> q \<Longrightarrow> 0 \<le> round_half_even q"
  unfolding round_half_even_def by auto


lemma ulp_pos: "0 < ulp x"
  by (simp add: ulp_def)

lemma exponent_le:
  assumes "x \<noteq> 0" and "\<bar>x\<bar> < 2 powi (n + 1)"
  shows "exponent x \<le> n"
proof -
  have "(2::rat) powi (exponent x) < 2 powi (n + 1)"
    using exponent_bounds(1)[OF assms(1)] assms(2) by linarith
  then have "exponent x < n + 1"
    by (metis power_int_increasing not_le_imp_less one_le_numeral not_less)
  then show ?thesis by simp
qed

lemma ulp_le:
  assumes "x \<noteq> 0" and "\<bar>x\<bar> < 2 powi (n + 1)" and "- 1022 \<le> n"
  shows "ulp x \<le> 2 powi (n - 52)"
proof -
  have "max (exponent x) (- 1022) - 52 \<le> n - 52"
    using exponent_le[OF assms(1,2)] assms(3) by simp
  then show ?thesis unfolding ulp_def by (intro power_int_increasing) simp_all
qed

lemma round_double_pos:
  assumes "0 < x" and "exponent x \<le> 1022"
  shows "round_double x = Fin (of_int (round_half_even (x / ulp x)) * ulp x)"
  using assms by (simp add: round_double_def)

lemma round_double_near:
  assumes "0 < x" and "exponent x \<le> 1022"
  obtains y where "round_double x = Fin y" and "0 \<le> y" and "\<bar>y - x\<bar> \<le> ulp x / 2"
proof -
  let ?n = "round_half_even (x / ulp x)"
  let ?y = "of_int ?n * ulp x"
  have "0 \<le> x / ulp x" using assms(1) ulp_pos[of x] by simp
  then have n0: "0 \<le> ?n" by (rule round_half_even_nonneg)
  then have y0: "0 \<le> ?y" using ulp_pos[of x] by simp
  have "?y - x = (of_int ?n - x / ulp x) * ulp x"
    using ulp_pos[of x] by (simp add: left_diff_distrib)
  then have "\<bar>?y - x\<bar> = \<bar>of_int ?n - x / ulp x\<bar> * \<bar>ulp x\<bar>"
    by (simp only: abs_mult)
  also have "\<dots> = \<bar>of_int ?n - x / ulp x\<bar> * ulp x"
    using ulp_pos[of x] by simp
  also have "\<dots> \<le> 1 / 2 * ulp x"
    using round_half_even_error[of "x / ulp x"] ulp_pos[of x] by (intro mult_right_mono) simp_all
  finally have "\<bar>?y - x\<bar> \<le> ulp x / 2" by simp
  with round_double_pos[OF assms] y0 show thesis by (rule that)
qed

lemma round_double_of_int:
  assumes "0 \<le> n" and "n < 2 ^ 53"
  shows "round_double (of_int n) = Fin (of_int n)"
proof (cases "n = 0")
  case True
  then show ?thesis by (simp add: round_double_def)
next
  case False
  with assms have pos: "0 < n" by simp
  let ?x = "of_int n :: rat"
  have x: "0 < ?x" "?x \<noteq> 0" using pos by simp_all
  have "?x < of_int (2 ^ 53)" using assms(2) by (simp only: of_int_less_iff)
  then have "\<bar>?x\<bar> < 2 powi (52 + 1)" using pos by simp
  from exponent_le[OF x(2) this] have e52: "exponent ?x \<le> 52" .
  have "(2::rat) powi 0 \<le> \<bar>?x\<bar>" using pos by simp
  also have "\<dots> < 2 powi (exponent ?x + 1)" using exponent_bounds(2)[OF x(2)] .
  finally have "0 < exponent ?x + 1"
    by (metis power_int_increasing not_le_imp_less one_le_numeral not_less)
  then have e0: "0 \<le> exponent ?x" by simp
  define j where "j = nat (52 - exponent ?x)"
  have u: "ulp ?x = 1 / 2 ^ j"
  proof -
    have "ulp ?x = 2 powi (- int j)" using e0 e52 by (simp add: ulp_def j_def)
    then show ?thesis by (simp add: power_int_minus_divide)
  qed
  have "?x / ulp ?x = of_int (n * 2 ^ j)" by (simp add: u)
  then have "round_half_even (?x / ulp ?x) = n * 2 ^ j" by (simp only: round_half_even_of_int)
  then have "of_int (round_half_even (?x / ulp ?x)) * ulp ?x = ?x" by (simp add: u)
  moreover have "exponent ?x \<le> 1022" using e52 by simp
  ultimately show ?thesis using round_double_pos[OF x(1)] by simp
qed

lemma is_double_below_one:
  assumes "is_double u" and "0 \<le> u" and "u < 1"
  shows "u \<le> 1 - 1 / 2 ^ 53"
proof (cases "u < 1 / 2")
  case True
  then show ?thesis by simp
next
  case False
  then have half: "1 / 2 \<le> u" by simp
  then have pos: "0 < u" by simp
  have "2 powi (- 1) \<le> \<bar>u\<bar>" "\<bar>u\<bar> < 2 powi (- 1 + 1)"
    using half assms(3) by (simp_all add: power_int_minus_divide)
  from exponent_unique[OF this] have e: "exponent u = - 1" .
  have ul: "ulp u = 1 / 2 ^ 53" by (simp add: ulp_def e power_int_minus_divide)
  let ?n = "round_half_even (u / ulp u)"
  have "round_double u = Fin (of_int ?n * ulp u)"
    using round_double_pos[OF pos] e by simp
  with assms(1) have un: "u = of_int ?n / 2 ^ 53" by (simp add: is_double_def ul)
  with assms(3) have "(of_int ?n :: rat) < 2 ^ 53" by (simp add: pos_divide_less_eq)
  then have "?n < 2 ^ 53" by (simp add: of_int_less_numeral_power_cancel_iff)
  then have "?n \<le> 2 ^ 53 - 1" by simp
  then have "(of_int ?n :: rat) \<le> of_int (2 ^ 53 - 1)" by (simp only: of_int_le_iff)
  then have "(of_int ?n :: rat) \<le> 2 ^ 53 - 1" by simp
  then have "(of_int ?n :: rat) / 2 ^ 53 \<le> (2 ^ 53 - 1) / 2 ^ 53"
    by (intro divide_right_mono) simp_all
  with un show ?thesis by (simp add: diff_divide_distrib)
qed


lemma round_double_below_1001:
  assumes "0 \<le> x" and "x \<le> 1001 - 1001 / 2 ^ 53"
  obtains y where "round_double x = Fin y" and "0 \<le> y" and "y < 1001"
proof (cases "x = 0")
  case True
  have "round_double x = Fin 0" by (simp add: True round_double_def)
  then show thesis by (rule that) simp_all
next
  case False
  with assms(1) have pos: "0 < x" and nz: "x \<noteq> 0" by simp_all
  have "\<bar>x\<bar> < 2 powi (9 + 1)" using assms by simp
  note e9 = exponent_le[OF nz this]
  then have e: "exponent x \<le> 1022" by simp
  from round_double_near[OF pos e] obtain y
    where y: "round_double x = Fin y" "0 \<le> y" "\<bar>y - x\<bar> \<le> ulp x / 2" by blast
  show thesis
  proof (cases "x < 512")
    case True
    then have "\<bar>x\<bar> < 2 powi (8 + 1)" using pos by simp
    from ulp_le[OF nz this] have "ulp x \<le> 2 powi (8 - 52)" by simp
    then have "ulp x \<le> 1" by (simp add: power_int_minus_divide) 
    with y(3) True have "y < 1001" by linarith
    with y(1,2) show thesis by (rule that)
  next
    case False
    then have "2 powi 9 \<le> \<bar>x\<bar>" "\<bar>x\<bar> < 2 powi (9 + 1)" using assms by simp_all
    from exponent_unique[OF this] have ex: "exponent x = 9" .
    have ul: "ulp x = 1 / 2 ^ 43" by (simp add: ulp_def ex power_int_minus_divide)
    let ?n = "round_half_even (x / ulp x)"
    have yn: "y = of_int ?n / 2 ^ 43"
      using round_double_pos[OF pos e] y(1) by (simp add: ul)
    have "of_int ?n \<le> x / ulp x + 1 / 2"
      using round_half_even_error[of "x / ulp x"] by linarith
    also have "\<dots> = x * 2 ^ 43 + 1 / 2" by (simp add: ul)
    also have "\<dots> \<le> (1001 - 1001 / 2 ^ 53) * 2 ^ 43 + 1 / 2"
      using assms(2) by (intro add_right_mono mult_right_mono) simp_all
    also have "\<dots> < of_int (1001 * 2 ^ 43)" by simp
    finally have "?n < 1001 * 2 ^ 43" by (simp only: of_int_less_iff)
    then have "(of_int ?n :: rat) < of_int (1001 * 2 ^ 43)" by (simp only: of_int_less_iff)
    then have "(of_int ?n :: rat) / 2 ^ 43 < of_int (1001 * 2 ^ 43) / 2 ^ 43"
      by (intro divide_strict_right_mono) simp_all
    then have "y < 1001" by (simp add: yn)
    with y(1,2) show thesis by (rule that)
  qed
qed

lemma round_double_tenths:
  assumes "0 \<le> k" and "k \<le> 1000"
  obtains z where "round_double (of_int k / 10) = Fin z" and "0 \<le> z" and "z \<le> 100"
    and "\<lfloor>z * 10 + 1 / 2\<rfloor> = k" and "k = 0 \<or> 0 < z"
proof (cases "k = 0")
  case True
  have r: "round_double (of_int k / 10) = Fin 0" by (simp add: True round_double_def)
  have f: "\<lfloor>(0::rat) * 10 + 1 / 2\<rfloor> = k" unfolding True by (rule floor_unique) simp_all
  show thesis
  proof (rule that[of 0])
    show "round_double (of_int k / 10) = Fin 0" by (rule r)
    show "(0::rat) \<le> 0" "(0::rat) \<le> 100" by simp_all
    show "\<lfloor>(0::rat) * 10 + 1 / 2\<rfloor> = k" by (rule f)
    show "k = 0 \<or> (0::rat) < 0" using True by simp
  qed
next
  case False
  with assms have k1: "1 \<le> k" by simp
  let ?x = "of_int k / 10 :: rat"
  have lo: "1 / 10 \<le> ?x" using k1 by simp
  have hi: "?x \<le> 100" using assms(2) by simp
  have pos: "0 < ?x" and nz: "?x \<noteq> 0" using lo by simp_all
  have small: "\<bar>?x\<bar> < 2 powi (6 + 1)" using hi pos by simp
  from exponent_le[OF nz small] have e: "exponent ?x \<le> 1022" by simp
  from ulp_le[OF nz small] have "ulp ?x \<le> 2 powi (6 - 52)" by simp
  then have ul: "ulp ?x \<le> 1 / 2 ^ 46" by (simp add: power_int_minus_divide)
  from round_double_near[OF pos e] obtain z
    where z: "round_double ?x = Fin z" "0 \<le> z" "\<bar>z - ?x\<bar> \<le> ulp ?x / 2" by blast
  have "(1::rat) / 2 ^ 46 \<le> 1 / 50" by simp
  with z(3) ul have err: "\<bar>z - ?x\<bar> \<le> 1 / 100" by linarith
  have zpos: "0 < z" using err lo by linarith
  have fl: "\<lfloor>z * 10 + 1 / 2\<rfloor> = k"
  proof (rule floor_unique)
    show "of_int k \<le> z * 10 + 1 / 2" using err by linarith
    show "z * 10 + 1 / 2 < of_int k + 1" using err by linarith
  qed
  have z100: "z \<le> 100"
  proof (cases "k = 1000")
    case True
    have "round_double (of_int 100) = Fin (of_int 100)"
      by (rule round_double_of_int) simp_all
    with z(1) True show ?thesis by simp
  next
    case False
    with assms(2) have "k \<le> 999" by simp
    then have "?x \<le> 999 / 10" by simp
    with err show ?thesis by linarith
  qed
  have "k = 0 \<or> 0 < z" using zpos by blast
  with z(1,2) z100 fl show thesis by (rule that)
qed

subsection \<open>Validation, lists and the selection loop\<close>

lemma number_default_ok:
  "VerifyThis_number (JNum x) (default_number_rules\<lparr>n_alias := a\<rparr>) = Inr ()"
  by (simp add: VerifyThis_number_def default_number_rules_def)

lemma number_decimals_one_ok:
  "VerifyThis_number (JNum (Fin (of_nat 1)))
     (default_number_rules\<lparr>n_alias := a, n_min := Some (Fin 1)\<rparr>) = Inr ()"
  by (simp add: VerifyThis_number_def default_number_rules_def truthy_num_def)

lemma checkPercent_foldl:
  "checkPercent acc es = foldl js_add acc (weights es)"
  by (induction es arbitrary: acc) (simp_all add: weights_def)

lemma find_map_index:
  "find P (map f xs) = map_option f (find (\<lambda>x. P (f x)) xs)"
  by (induction xs) simp_all

lemma walk_find:
  "walk num c arr =
     (case find (\<lambda>i. js_le num (checkPercent c (take (Suc i) arr))) [0..<length arr] of
        None \<Rightarrow> None
      | Some i \<Rightarrow> el (arr ! i))"
proof (induction arr arbitrary: c)
  case Nil
  show ?case by simp
next
  case (Cons e es)
  have upt: "[0..<length (e # es)] = 0 # map Suc [0..<length es]"
    by (simp add: upt_conv_Cons map_Suc_upt del: upt_Suc)
  show ?case
  proof (cases "js_le num (js_add c (percent e))")
    case True
    then show ?thesis by (simp only: upt) simp
  next
    case False
    then show ?thesis
      by (simp only: upt) (simp add: Cons.IH find_map_index split: option.splits)
  qed
qed

lemma walk_select_spec: "walk num (Fin 0) arr = select_spec arr num"
  by (simp add: walk_find select_spec_def cumulative_def checkPercent_foldl)

lemma findIndex_None_iff: "findIndex p xs = None \<longleftrightarrow> (\<forall>x\<in>set xs. \<not> p x)"
  by (induction xs) (auto split: option.splits)

lemma findIndex_Some:
  "findIndex p xs = Some i \<Longrightarrow> i < length xs \<and> p (xs ! i) \<and> (\<forall>j<i. \<not> p (xs ! j))"
proof (induction xs arbitrary: i)
  case Nil
  then show ?case by simp
next
  case (Cons x xs)
  show ?case
  proof (cases "p x")
    case True
    with Cons.prems show ?thesis by simp
  next
    case False
    with Cons.prems obtain k where k: "findIndex p xs = Some k" "i = Suc k"
      by (auto split: option.splits)
    from Cons.IH[OF k(1)] have ih: "k < length xs" "p (xs ! k)" "\<forall>j<k. \<not> p (xs ! j)"
      by simp_all
    show ?thesis using ih False k(2) by (auto simp: less_Suc_eq_0_disj)
  qed
qed

lemma findIndex_first:
  "i < length xs \<Longrightarrow> p (xs ! i) \<Longrightarrow> (\<forall>j<i. \<not> p (xs ! j)) \<Longrightarrow> findIndex p xs = Some i"
proof -
  assume a: "i < length xs" "p (xs ! i)" "\<forall>j<i. \<not> p (xs ! j)"
  then have "findIndex p xs \<noteq> None" by (auto simp: findIndex_None_iff)
  then obtain k where k: "findIndex p xs = Some k" by auto
  from findIndex_Some[OF k] have "k < length xs" "p (xs ! k)" "\<forall>j<k. \<not> p (xs ! j)" by simp_all
  with a have "k = i" by (meson linorder_neqE_nat)
  with k show ?thesis by simp
qed

lemma has_both_findIndex:
  "list_all has_both arr \<Longrightarrow>
     findIndex (\<lambda>element. el element = None) arr = None \<and>
     findIndex (\<lambda>element. prob element = None) arr = None"
  by (simp add: findIndex_None_iff list_all_iff has_both_def)

lemma js_lt_NaN_right: "js_lt a NaN = False"
  by (cases a) simp_all

lemma str_length_of_string:
  "is_string str \<Longrightarrow> \<exists>k. str_length str = Fin (of_nat k)"
  by (cases str) auto

lemma passes_minChars:
  assumes "is_string str" "\<forall>n. minChars rules = Some n \<longrightarrow> \<not> js_lt (str_length str) n"
  shows "\<not> (truthy (minChars rules) \<and> js_lt (str_length str) (the (minChars rules)))"
  using assms by (cases "minChars rules") auto

lemma string_after_minChars:
  assumes "is_string str"
    and "\<not> (\<not> s_canEmpty rules \<and> str_falsy str)"
    and "\<forall>n. minChars rules = Some n \<longrightarrow> \<not> js_lt (str_length str) n"
  shows "VerifyThis_string str rules =
     (if truthy (maxChars rules) \<and> js_gt (str_length str) (the (maxChars rules))
        then Inl (Error (HasMoreChars (s_alias rules) (the (maxChars rules))))
      else if maxChars rules = Some (Fin 1) \<and> \<not> includes_str (allowedChars rules) str
        then Inl (Error (CharNotAllowed (allowedChars rules)))
      else Inr ())"
proof -
  have a: "(\<not> is_string str) = False" using assms(1) by blast
  have b: "(\<not> s_canEmpty rules \<and> str_falsy str) = False" using assms(2) by blast
  have c: "(truthy (minChars rules) \<and> js_lt (str_length str) (the (minChars rules))) = False"
    using passes_minChars[OF assms(1,3)] by blast
  show ?thesis unfolding VerifyThis_string_def by (simp only: a b c if_False)
qed

lemma string_maxChars_zero_not_enforced:
  "VerifyThis_string (JStr ''abc'') (default_string_rules\<lparr>maxChars := Some (Fin 0)\<rparr>) = Inr ()"
  by (simp add: VerifyThis_string_def default_string_rules_def truthy_num_def)

subsection \<open>The draw of \<open>Random.floatBetween(0, 100)\<close>\<close>

lemma pow10_1: "pow10 (Suc 0) = Fin 10"
proof -
  have "round_double (of_int 10) = Fin (of_int 10)" by (rule round_double_of_int) simp_all
  then show ?thesis by (simp add: pow10_def)
qed

lemma round_double_numeral:
  assumes "(numeral n :: int) < 2 ^ 53"
  shows "round_double (numeral n) = Fin (numeral n)"
proof -
  have "round_double (of_int (numeral n)) = Fin (of_int (numeral n))"
    using assms by (intro round_double_of_int) simp_all
  then show ?thesis by simp
qed

lemma intBetween_0_1000:
  assumes "Math_random u"
  obtains k where "0 \<le> k" and "k \<le> 1000"
    and "intBetween (JNum (Fin 0)) (JNum (Fin 1000)) u = Inr (Fin (of_int k))"
proof -
  from assms have u: "is_double u" "0 \<le> u" "u < 1" by (simp_all add: Math_random_def)
  have range: "js_add (js_sub (Fin 1000) (Fin 0)) (Fin 1) = Fin 1001"
    by (simp add: js_sub_def round_double_numeral)
  have "u * 1001 \<le> (1 - 1 / 2 ^ 53) * 1001"
    using is_double_below_one[OF u] by (intro mult_right_mono) simp_all
  then have top: "u * 1001 \<le> 1001 - 1001 / 2 ^ 53" by (simp add: algebra_simps)
  have "0 \<le> u * 1001" using u(2) by simp
  from round_double_below_1001[OF this top] obtain y
    where y: "round_double (u * 1001) = Fin y" "0 \<le> y" "y < 1001" by blast
  define k where "k = \<lfloor>y\<rfloor>"
  have k0: "0 \<le> k" using y(2) by (simp add: k_def)
  have "k < 1001" using y(3) by (simp add: k_def floor_less_iff)
  then have k1: "k \<le> 1000" by simp
  have "round_double (of_int k) = Fin (of_int k)"
    using k0 k1 by (intro round_double_of_int) simp_all
  then have plus0: "js_add (Fin (of_int k)) (Fin 0) = Fin (of_int k)" by simp
  have "intBetween (JNum (Fin 0)) (JNum (Fin 1000)) u = Inr (Fin (of_int k))"
    unfolding intBetween_def
    by (simp only: number_default_ok and_then.simps num_of.simps range js_mul.simps y
          Math_floor.simps plus0 flip: k_def)
       (simp add: js_seq_def js_gt_def)
  with k0 k1 show thesis by (rule that)
qed

lemma floatBetween_0_100:
  assumes "Math_random u"
  obtains k z where "0 \<le> k" and "k \<le> 1000"
    and "round_double (of_int k / 10) = Fin z" and "0 \<le> z" and "z \<le> 100"
    and "floatBetween (JNum (Fin 0)) (JNum (Fin 100)) floatBetween_default u = Inr (Fin z)"
proof -
  from intBetween_0_1000[OF assms] obtain k
    where k: "0 \<le> k" "k \<le> 1000"
      "intBetween (JNum (Fin 0)) (JNum (Fin 1000)) u = Inr (Fin (of_int k))" by blast
  from round_double_tenths[OF k(1,2)] obtain z
    where z: "round_double (of_int k / 10) = Fin z" "0 \<le> z" "z \<le> 100"
      "\<lfloor>z * 10 + 1 / 2\<rfloor> = k" "k = 0 \<or> 0 < z" by blast
  have s0: "js_mul (num_of (JNum (Fin 0))) (pow10 (Suc 0)) = Fin 0"
    by (simp add: pow10_1 round_double_def)
  have s1: "js_mul (num_of (JNum (Fin 100))) (pow10 (Suc 0)) = Fin 1000"
    by (simp add: pow10_1 round_double_numeral)
  have dv: "js_div (Fin (of_int k)) (pow10 (Suc 0)) = Fin z"
    by (simp add: pow10_1 z(1))
  have sg: "sgn z * of_int k = of_int k" using z(5) by auto
  have small: "\<not> \<bar>z\<bar> \<ge> 10 ^ 21" using z(2,3) by simp
  have az: "\<bar>z\<bar> = z" using z(2) by simp
  have "toFixed_Number (Suc 0) (Fin z)
          = round_double (sgn z * of_int \<lfloor>z * 10 ^ Suc 0 + 1 / 2\<rfloor> / 10 ^ Suc 0)"
    using small by (simp only: toFixed_Number.simps az if_False)
  also have "\<dots> = round_double (sgn z * of_int k / 10)" using z(4) by simp
  also have "\<dots> = round_double (of_int k / 10)" by (simp only: sg)
  finally have tf: "toFixed_Number (Suc 0) (Fin z) = Fin z" by (simp only: z(1))
  have "floatBetween (JNum (Fin 0)) (JNum (Fin 100)) floatBetween_default u = Inr (Fin z)"
    unfolding floatBetween_def floatBetween_default_def One_nat_def
    by (simp only: number_default_ok number_decimals_one_ok [unfolded One_nat_def]
          and_then.simps s0 s1 k(3) dv tf sum.case)
       (simp add: js_seq_def js_gt_def)
  with k(1,2) z(1,2,3) show thesis by (rule that)
qed

subsection \<open>The selection\<close>

lemma execProb_well_formed:
  assumes "list_all has_both arr"
    and "floatBetween (JNum (Fin 0)) (JNum (Fin 100)) floatBetween_default u = Inr r"
  shows "execProb arr u =
           (if js_gt (total_weight arr) (Fin 100) then Inl (Error SumMoreThan100)
            else Inr (walk r (Fin 0) arr))"
  using has_both_findIndex[OF assms(1)] assms(2)
  by (simp add: execProb_def total_weight_def checkPercent_foldl)

lemma select_spec_beyond:
  assumes "list_all (\<lambda>i. js_lt (cumulative arr i) r) [0..<length arr]"
  shows "select_spec arr r = None"
proof -
  have "\<not> js_le r (cumulative arr i)" if "i < length arr" for i
  proof -
    from assms that have "js_lt (cumulative arr i) r" by (simp add: list_all_iff)
    then show ?thesis by (simp add: js_le_def)
  qed
  then have "find (\<lambda>i. js_le r (cumulative arr i)) [0..<length arr] = None"
    by (simp add: find_None_iff)
  then show ?thesis by (simp add: select_spec_def)
qed

subsection \<open>Rounding at work\<close>

text \<open>
  Where binary64 arithmetic and exact arithmetic part ways in this program: the decimal
  \<open>0.1\<close> is not a binary64 value; \<open>0.1 + 0.7\<close> is \<open>0.7999999999999999\<close>, below
  \<open>0.8\<close>; \<open>100 + 2^-60\<close> is \<open>100\<close>; \<open>8.5 / 10\<close> lies below \<open>0.85\<close>, so that
  \<open>toFixed(1)\<close> prints \<open>0.8\<close>; \<open>0.2 + 83.9 + 15.9\<close> exceeds 100; and the product
  of \<open>Math.random()\<close> with 1001 can round up to the next integer, here to 601.
\<close>

lemma binary64_checks:
  "round_double (1 / 10) = Fin (3602879701896397 / 2 ^ 55)"
  "js_add (round_double (1 / 10)) (round_double (7 / 10)) = Fin (7205759403792793 / 2 ^ 53)"
  "js_lt (js_add (round_double (1 / 10)) (round_double (7 / 10))) (round_double (8 / 10))"
  "js_add (Fin 100) (round_double (1 / 2 ^ 60)) = Fin 100"
  "toFixed_Number 1 (js_div (round_double (17 / 2)) (Fin 10)) = round_double (8 / 10)"
  "js_gt (js_add (js_add (js_add (Fin 0) (round_double (2 / 10))) (round_double (839 / 10)))
            (round_double (159 / 10))) (Fin 100)"
  "is_double (2703959416633035 / 2 ^ 52)"
  "floatBetween (JNum (Fin 0)) (JNum (Fin 100)) floatBetween_default
     (2703959416633035 / 2 ^ 52) = Inr (round_double (601 / 10))"
  by code_simp+

section \<open>The claims\<close>

text \<open>
  C1. With \<open>min\<close> set to 0, \<open>VerifyThis.number(5, {min: 0})\<close> returns normally. On
  \<open>VerifyThis.number(-1, {min: 0})\<close> the minimum check is taken, zero being told apart
  from an unset minimum, but what is thrown is the \<open>ReferenceError\<close> of the undeclared
  identifier \<open>minValue\<close> in the message, not the \<open>RangeError\<close> that the statement
  constructs.
\<close>

theorem number_min_zero_ReferenceError:
  "VerifyThis_number (JNum (Fin 5)) (default_number_rules\<lparr>n_min := Some (Fin 0)\<rparr>) = Inr ()
   \<and> VerifyThis_number (JNum (Fin (- 1))) (default_number_rules\<lparr>n_min := Some (Fin 0)\<rparr>)
       = Inl (ReferenceError (NotDefined ''minValue''))"
  by (simp add: VerifyThis_number_def default_number_rules_def)



text \<open>
  C3, as stated: the draw of \<open>Random.floatBetween(0, 100)\<close> is strictly below 100. It is
  not: when \<open>Math.random()\<close> returns \<open>1023/1024\<close> the draw is \<open>100\<close>.
\<close>

theorem floatBetween_reaches_100:
  "Math_random (1023 / 1024)
   \<and> floatBetween (JNum (Fin 0)) (JNum (Fin 100)) floatBetween_default (1023 / 1024)
        = Inr (Fin 100)
   \<and> \<not> js_lt (Fin 100) (Fin 100)"
  by code_simp

text \<open>
  C3, amended: for every result \<open>u\<close> of \<open>Math.random()\<close>, a binary64 value with
  \<open>0 \<le> u < 1\<close>, the draw of \<open>Random.floatBetween(0, 100)\<close> is the binary64 value of
  \<open>k / 10\<close> for an integer \<open>k\<close> from 0 to 1000: it lies in the closed interval
  \<open>[0, 100]\<close> and has one decimal place, the default of the parameter \<open>decimals\<close>.
\<close>

theorem floatBetween_0_100_closed_range:
  assumes "Math_random u"
  shows "\<exists>k::nat. k \<le> 1000
     \<and> floatBetween (JNum (Fin 0)) (JNum (Fin 100)) floatBetween_default u
          = Inr (round_double (of_nat k / 10))
     \<and> js_le (Fin 0) (round_double (of_nat k / 10))
     \<and> js_le (round_double (of_nat k / 10)) (Fin 100)"
proof -
  from floatBetween_0_100[OF assms] obtain k z
    where k: "0 \<le> k" "k \<le> 1000" and r: "round_double (of_int k / 10) = Fin z"
      and z: "0 \<le> z" "z \<le> 100"
      and draw: "floatBetween (JNum (Fin 0)) (JNum (Fin 100)) floatBetween_default u
                   = Inr (Fin z)" by blast
  have n: "(of_nat (nat k) :: rat) = of_int k" using k(1) by simp
  have "nat k \<le> 1000" using k(2) by simp
  moreover have "floatBetween (JNum (Fin 0)) (JNum (Fin 100)) floatBetween_default u
          = Inr (round_double (of_nat (nat k) / 10))"
    by (simp only: n r draw)
  moreover have "js_le (Fin 0) (round_double (of_nat (nat k) / 10))"
    using z(1) by (simp only: n r) (simp add: js_le_def)
  moreover have "js_le (round_double (of_nat (nat k) / 10)) (Fin 100)"
    using z(2) by (simp only: n r) (simp add: js_le_def)
  ultimately show ?thesis by blast
qed

theorem floatBetween_0_100_closed_range_witness:
  "Math_random (341 / 1024)
   \<and> floatBetween (JNum (Fin 0)) (JNum (Fin 100)) floatBetween_default (341 / 1024)
        = Inr (round_double (333 / 10))
   \<and> (\<exists>k::nat. k \<le> 1000
        \<and> floatBetween (JNum (Fin 0)) (JNum (Fin 100)) floatBetween_default (341 / 1024)
             = Inr (round_double (of_nat k / 10))
        \<and> js_le (round_double (of_nat k / 10)) (Fin 100))"
proof -
  have u: "Math_random (341 / 1024)" by code_simp
  have v: "floatBetween (JNum (Fin 0)) (JNum (Fin 100)) floatBetween_default (341 / 1024)
             = Inr (round_double (333 / 10))"
    by code_simp
  from floatBetween_0_100_closed_range[OF u] u v show ?thesis by blast
qed

text \<open>
  C4, as stated: when the weights sum to less than 100 and the draw lands beyond the
  last running total, \<open>execProb\<close> returns no selection. It does not when a weight is
  negative: for \<open>A\<close> with weight 50 and \<open>B\<close> with weight -40 the sum is 10, the draw
  30 is beyond it, and \<open>A\<close> is returned.
\<close>

theorem execProb_negative_weight_selected:
  "Math_random (307 / 1024)
   \<and> list_all has_both [\<lparr>el = Some ''A'', prob = Some (Fin 50)\<rparr>,
                         \<lparr>el = Some ''B'', prob = Some (Fin (- 40))\<rparr>]
   \<and> total_weight [\<lparr>el = Some ''A'', prob = Some (Fin 50)\<rparr>,
                    \<lparr>el = Some ''B'', prob = Some (Fin (- 40))\<rparr>] = Fin 10
   \<and> js_lt (Fin 10) (Fin 100)
   \<and> floatBetween (JNum (Fin 0)) (JNum (Fin 100)) floatBetween_default (307 / 1024)
        = Inr (Fin 30)
   \<and> js_lt (Fin 10) (Fin 30)
   \<and> execProb [\<lparr>el = Some ''A'', prob = Some (Fin 50)\<rparr>,
                \<lparr>el = Some ''B'', prob = Some (Fin (- 40))\<rparr>] (307 / 1024)
        = Inr (Some ''A'')"
  by code_simp

text \<open>
  C4, amended: when every entry has both properties, \<open>execProb\<close> throws the error of
  the sum check exactly when the sum of the weights, accumulated in list order in
  binary64 arithmetic, exceeds 100, and returns otherwise. When moreover that sum is
  below 100 and the draw is beyond every running total, \<open>execProb\<close> returns
  \<open>undefined\<close>: no selection, and no failure.
\<close>

theorem execProb_InvalidConfiguration_iff:
  assumes "list_all has_both arr" and "Math_random u"
  shows "((execProb arr u = Inl (Error SumMoreThan100)) = js_gt (total_weight arr) (Fin 100))
     \<and> (\<not> js_gt (total_weight arr) (Fin 100) \<longrightarrow> (\<exists>res. execProb arr u = Inr res))
     \<and> (js_lt (total_weight arr) (Fin 100)
          \<and> (\<exists>r. floatBetween (JNum (Fin 0)) (JNum (Fin 100)) floatBetween_default u = Inr r
                  \<and> list_all (\<lambda>i. js_lt (cumulative arr i) r) [0..<length arr])
          \<longrightarrow> execProb arr u = Inr None)"
proof -
  from floatBetween_0_100[OF assms(2)] obtain k z
    where draw: "floatBetween (JNum (Fin 0)) (JNum (Fin 100)) floatBetween_default u
                   = Inr (Fin z)" by blast
  note ex = execProb_well_formed[OF assms(1) draw]
  have a: "(execProb arr u = Inl (Error SumMoreThan100)) = js_gt (total_weight arr) (Fin 100)"
    by (simp add: ex)
  have b: "\<not> js_gt (total_weight arr) (Fin 100) \<longrightarrow> (\<exists>res. execProb arr u = Inr res)"
    by (simp add: ex)
  have c: "execProb arr u = Inr None"
    if lt: "js_lt (total_weight arr) (Fin 100)"
      and dr: "floatBetween (JNum (Fin 0)) (JNum (Fin 100)) floatBetween_default u = Inr r"
      and beyond: "list_all (\<lambda>i. js_lt (cumulative arr i) r) [0..<length arr]" for r
  proof -
    from dr draw have r: "r = Fin z" by simp
    from lt have ngt: "\<not> js_gt (total_weight arr) (Fin 100)"
      by (cases "total_weight arr") (auto simp: js_gt_def)
    from select_spec_beyond[OF beyond] have "walk r (Fin 0) arr = None"
      by (simp add: walk_select_spec)
    with ex ngt r show ?thesis by simp
  qed
  from a b c show ?thesis by blast
qed

theorem execProb_InvalidConfiguration_iff_witness:
  "list_all has_both [\<lparr>el = Some ''A'', prob = Some (Fin 150)\<rparr>]
   \<and> Math_random (1 / 2)
   \<and> js_gt (total_weight [\<lparr>el = Some ''A'', prob = Some (Fin 150)\<rparr>]) (Fin 100)
   \<and> execProb [\<lparr>el = Some ''A'', prob = Some (Fin 150)\<rparr>] (1 / 2) = Inl (Error SumMoreThan100)
   \<and> list_all has_both [\<lparr>el = Some ''A'', prob = Some (Fin 10)\<rparr>]
   \<and> js_lt (total_weight [\<lparr>el = Some ''A'', prob = Some (Fin 10)\<rparr>]) (Fin 100)
   \<and> floatBetween (JNum (Fin 0)) (JNum (Fin 100)) floatBetween_default (1 / 2) = Inr (Fin 50)
   \<and> list_all (\<lambda>i. js_lt (cumulative [\<lparr>el = Some ''A'', prob = Some (Fin 10)\<rparr>] i) (Fin 50))
        [0..<length [\<lparr>el = Some ''A'', prob = Some (Fin 10)\<rparr>]]
   \<and> execProb [\<lparr>el = Some ''A'', prob = Some (Fin 10)\<rparr>] (1 / 2) = Inr None"
proof -
  let ?big = "[\<lparr>el = Some ''A'', prob = Some (Fin 150)\<rparr>]"
  let ?small = "[\<lparr>el = Some ''A'', prob = Some (Fin 10)\<rparr>]"
  have u: "Math_random (1 / 2)" by code_simp
  have wb: "list_all has_both ?big" and ws: "list_all has_both ?small"
    by (simp_all add: has_both_def)
  have gt: "js_gt (total_weight ?big) (Fin 100)"
    by (simp add: total_weight_def weights_def js_gt_def round_double_numeral)
  have lt: "js_lt (total_weight ?small) (Fin 100)"
    by (simp add: total_weight_def weights_def round_double_numeral)
  have dr: "floatBetween (JNum (Fin 0)) (JNum (Fin 100)) floatBetween_default (1 / 2)
              = Inr (Fin 50)"
    by code_simp
  have bey: "list_all (\<lambda>i. js_lt (cumulative ?small i) (Fin 50)) [0..<length ?small]"
    by (simp add: cumulative_def weights_def round_double_numeral)
  from execProb_InvalidConfiguration_iff[OF wb u] gt
  have e1: "execProb ?big (1 / 2) = Inl (Error SumMoreThan100)" by blast
  from execProb_InvalidConfiguration_iff[OF ws u] lt dr bey
  have e2: "execProb ?small (1 / 2) = Inr None" by blast
  from u wb ws gt lt dr bey e1 e2 show ?thesis by blast
qed

text \<open>
  C5. When some entry lacks \<open>el\<close> or \<open>prob\<close>, \<open>execProb\<close> throws the
  \<open>ReferenceError\<close> that names the index of an entry lacking a property, together
  with that property, whatever the weights sum to and whatever \<open>Math.random()\<close> would
  return. On the one-entry list \<open>[{prob: 10}]\<close> the index named is 0.
\<close>

theorem execProb_MissingField:
  assumes "\<not> list_all has_both arr"
  shows "(\<exists>i p. execProb arr u = Inl (ReferenceError (MissingProperty i p))
            \<and> i < length arr
            \<and> ((p = ''el'' \<and> el (arr ! i) = None) \<or> (p = ''prob'' \<and> prob (arr ! i) = None)))
     \<and> execProb [\<lparr>el = None, prob = Some (Fin 10)\<rparr>] u'
          = (Inl (ReferenceError (MissingProperty 0 ''el'')) :: js_error + 'a option)"
proof -
  have conc: "execProb [\<lparr>el = None, prob = Some (Fin 10)\<rparr>] u'
          = (Inl (ReferenceError (MissingProperty 0 ''el'')) :: js_error + 'a option)"
    by (simp add: execProb_def)
  show ?thesis
  proof (cases "findIndex (\<lambda>element. el element = None) arr")
    case (Some i)
    from findIndex_Some[OF Some] have "i < length arr" "el (arr ! i) = None" by simp_all
    moreover have "execProb arr u = Inl (ReferenceError (MissingProperty i ''el''))"
      by (simp add: execProb_def Some)
    ultimately show ?thesis using conc by blast
  next
    case None
    then have els: "\<forall>e\<in>set arr. el e \<noteq> None" by (simp add: findIndex_None_iff)
    with assms have "findIndex (\<lambda>element. prob element = None) arr \<noteq> None"
      by (auto simp: findIndex_None_iff list_all_iff has_both_def)
    then obtain i where i: "findIndex (\<lambda>element. prob element = None) arr = Some i" by auto
    from findIndex_Some[OF i] have "i < length arr" "prob (arr ! i) = None" by simp_all
    moreover have "execProb arr u = Inl (ReferenceError (MissingProperty i ''prob''))"
      by (simp add: execProb_def None i)
    ultimately show ?thesis using conc by blast
  qed
qed

theorem execProb_MissingField_witness:
  "\<not> list_all has_both [\<lparr>el = Some ''A'', prob = Some (Fin 150)\<rparr>,
                          \<lparr>el = None, prob = Some (Fin 10)\<rparr>]
   \<and> js_gt (total_weight [\<lparr>el = Some ''A'', prob = Some (Fin 150)\<rparr>,
                    \<lparr>el = None, prob = Some (Fin 10)\<rparr>]) (Fin 100)
   \<and> execProb [\<lparr>el = Some ''A'', prob = Some (Fin 150)\<rparr>,
                \<lparr>el = None, prob = Some (Fin 10)\<rparr>] (1 / 2)
        = Inl (ReferenceError (MissingProperty 1 ''el''))
   \<and> (\<exists>i p. execProb [\<lparr>el = Some ''A'', prob = Some (Fin 150)\<rparr>,
                \<lparr>el = None, prob = Some (Fin 10)\<rparr>] (1 / 2)
        = Inl (ReferenceError (MissingProperty i p))
        \<and> i < length [\<lparr>el = Some ''A'', prob = Some (Fin 150)\<rparr>,
                          \<lparr>el = None :: string option, prob = Some (Fin 10)\<rparr>])"
proof -
  let ?arr = "[\<lparr>el = Some ''A'', prob = Some (Fin 150)\<rparr>, \<lparr>el = None, prob = Some (Fin 10)\<rparr>]"
  have h: "\<not> list_all has_both ?arr" by (simp add: has_both_def)
  have s: "js_gt (total_weight ?arr) (Fin 100)"
    by (simp add: total_weight_def weights_def js_gt_def round_double_numeral)
  have v: "execProb ?arr (1 / 2) = Inl (ReferenceError (MissingProperty 1 ''el''))"
    by (simp add: execProb_def)
  from execProb_MissingField[OF h, of "1 / 2" 0]
  have "\<exists>i p. execProb ?arr (1 / 2) = Inl (ReferenceError (MissingProperty i p))
          \<and> i < length ?arr"
    by blast
  with h s v show ?thesis by blast
qed

text \<open>
  C6, as stated: a string longer than a set \<open>maxChars\<close> that passes the type and
  emptiness checks fails with the error of the maximum check, and a string whose length
  equals \<open>maxChars\<close> does not fail. Neither holds: \<open>"x"\<close> under \<open>maxChars: 1\<close> has the
  length of the maximum and fails the allow-list check, and \<open>"abc"\<close> under
  \<open>minChars: 5, maxChars: 2\<close> fails the minimum check, which comes first.
\<close>

theorem string_maxChars_counterexample:
  "str_length (JStr ''x'') = Fin 1
   \<and> VerifyThis_string (JStr ''x'') (default_string_rules\<lparr>maxChars := Some (Fin 1)\<rparr>)
        = Inl (Error (CharNotAllowed []))
   \<and> js_gt (str_length (JStr ''abc'')) (Fin 2)
   \<and> VerifyThis_string (JStr ''abc'')
         (default_string_rules\<lparr>minChars := Some (Fin 5), maxChars := Some (Fin 2)\<rparr>)
        = Inl (Error (HasLessChars ''String'' (Fin 5)))"
  by (simp add: VerifyThis_string_def default_string_rules_def truthy_num_def js_gt_def)

text \<open>
  C6, amended: for a string that passes the type, emptiness and minimum checks and a
  \<open>maxChars\<close> set to a number other than 0, a length above \<open>maxChars\<close> fails with the
  error of the maximum check; a length equal to \<open>maxChars\<close> does not fail that check,
  and the call then returns normally unless \<open>maxChars\<close> is 1 and the string is not in
  \<open>allowedChars\<close>. (What happens under \<open>maxChars: 0\<close> is not part of the statement;
  \<open>string_maxChars_zero_not_enforced\<close> records it.)
\<close>

theorem string_maxChars_enforced:
  assumes "is_string str"
    and "\<not> (\<not> s_canEmpty rules \<and> str_falsy str)"
    and "\<forall>n. minChars rules = Some n \<longrightarrow> \<not> js_lt (str_length str) n"
    and "maxChars rules = Some m"
  shows "(m \<noteq> Fin 0 \<and> js_gt (str_length str) m \<longrightarrow>
            VerifyThis_string str rules = Inl (Error (HasMoreChars (s_alias rules) m)))
     \<and> (str_length str = m \<longrightarrow>
            VerifyThis_string str rules \<noteq> Inl (Error (HasMoreChars (s_alias rules) m))
          \<and> VerifyThis_string str rules =
              (if m = Fin 1 \<and> \<not> includes_str (allowedChars rules) str
               then Inl (Error (CharNotAllowed (allowedChars rules))) else Inr ()))"
proof -
  note res = string_after_minChars[OF assms(1,2,3)]
  have gt: "VerifyThis_string str rules = Inl (Error (HasMoreChars (s_alias rules) m))"
    if "m \<noteq> Fin 0" "js_gt (str_length str) m"
  proof -
    from that(2) have "m \<noteq> NaN" by (cases "str_length str"; cases m) (auto simp: js_gt_def)
    with that(1) have "truthy (maxChars rules)" by (simp add: assms(4) truthy_num_def)
    with that(2) show ?thesis by (simp add: res assms(4))
  qed
  have eq: "VerifyThis_string str rules =
              (if m = Fin 1 \<and> \<not> includes_str (allowedChars rules) str
               then Inl (Error (CharNotAllowed (allowedChars rules))) else Inr ())"
    if "str_length str = m"
  proof -
    from that str_length_of_string[OF assms(1)] obtain k where k: "m = Fin (of_nat k)" by auto
    then have "\<not> js_gt (str_length str) (the (maxChars rules))"
      using that by (simp add: js_gt_def assms(4))
    then show ?thesis by (simp add: res assms(4))
  qed
  from gt eq show ?thesis by auto
qed

theorem string_maxChars_enforced_witness:
  "is_string (JStr ''Programming'')
   \<and> \<not> (\<not> s_canEmpty (default_string_rules\<lparr>maxChars := Some (Fin 8)\<rparr>)
          \<and> str_falsy (JStr ''Programming''))
   \<and> minChars (default_string_rules\<lparr>maxChars := Some (Fin 8)\<rparr>) = None
   \<and> maxChars (default_string_rules\<lparr>maxChars := Some (Fin 8)\<rparr>) = Some (Fin 8)
   \<and> Fin 8 \<noteq> Fin 0
   \<and> js_gt (str_length (JStr ''Programming'')) (Fin 8)
   \<and> VerifyThis_string (JStr ''Programming'') (default_string_rules\<lparr>maxChars := Some (Fin 8)\<rparr>)
        = Inl (Error (HasMoreChars ''String'' (Fin 8)))
   \<and> is_string (JStr ''Language'')
   \<and> \<not> (\<not> s_canEmpty (default_string_rules\<lparr>maxChars := Some (Fin 8)\<rparr>)
          \<and> str_falsy (JStr ''Language''))
   \<and> str_length (JStr ''Language'') = Fin 8
   \<and> VerifyThis_string (JStr ''Language'') (default_string_rules\<lparr>maxChars := Some (Fin 8)\<rparr>)
        = Inr ()"
proof -
  let ?rules = "default_string_rules\<lparr>maxChars := Some (Fin 8)\<rparr>"
  have s: "is_string (JStr ''Programming'')" "is_string (JStr ''Language'')" by simp_all
  have e: "\<not> (\<not> s_canEmpty ?rules \<and> str_falsy (JStr ''Programming''))"
          "\<not> (\<not> s_canEmpty ?rules \<and> str_falsy (JStr ''Language''))" by simp_all
  have mn: "\<forall>n. minChars ?rules = Some n \<longrightarrow> \<not> js_lt (str_length (JStr ''Programming'')) n"
           "\<forall>n. minChars ?rules = Some n \<longrightarrow> \<not> js_lt (str_length (JStr ''Language'')) n"
    by (simp_all add: default_string_rules_def)
  have mx: "maxChars ?rules = Some (Fin 8)" by simp
  have nz: "Fin 8 \<noteq> Fin 0" by simp
  have gt: "js_gt (str_length (JStr ''Programming'')) (Fin 8)" by (simp add: js_gt_def)
  have eq: "str_length (JStr ''Language'') = Fin 8" by simp
  from string_maxChars_enforced[OF s(1) e(1) mn(1) mx] nz gt
  have r1: "VerifyThis_string (JStr ''Programming'') ?rules
              = Inl (Error (HasMoreChars ''String'' (Fin 8)))"
    by (simp add: default_string_rules_def)
  from string_maxChars_enforced[OF s(2) e(2) mn(2) mx] eq
  have r2: "VerifyThis_string (JStr ''Language'') ?rules = Inr ()"
    by simp
  have unset: "minChars ?rules = None" by (simp add: default_string_rules_def)
  from s e unset mx nz gt eq r1 r2 show ?thesis by blast
qed

text \<open>
  C7, as stated: under \<open>maxChars: 1\<close> every string that is not in \<open>allowedChars\<close> fails
  with the error of the allow-list check, whatever its length. It does not: \<open>"xy"\<close> is
  stopped by the maximum check before.
\<close>

theorem string_allow_list_counterexample:
  "\<not> includes_str [''a'', ''b''] (JStr ''xy'')
   \<and> VerifyThis_string (JStr ''xy'')
         (default_string_rules\<lparr>maxChars := Some (Fin 1), allowedChars := [''a'', ''b'']\<rparr>)
        = Inl (Error (HasMoreChars ''String'' (Fin 1)))"
  by (simp add: VerifyThis_string_def default_string_rules_def truthy_num_def js_gt_def)

text \<open>
  C7, amended: under \<open>maxChars: 1\<close> every string that passes the earlier checks (so of
  length at most 1) and is not in \<open>allowedChars\<close> fails with the error of the allow-list
  check; that error is thrown only when \<open>maxChars\<close> is exactly 1; and when \<open>maxChars\<close>
  is unset or differs from 1 the outcome does not depend on \<open>allowedChars\<close>.
\<close>

theorem string_allow_list_check:
  "(maxChars rules = Some (Fin 1) \<and> is_string str
      \<and> \<not> (\<not> s_canEmpty rules \<and> str_falsy str)
      \<and> (\<forall>n. minChars rules = Some n \<longrightarrow> \<not> js_lt (str_length str) n)
      \<and> \<not> js_gt (str_length str) (Fin 1)
      \<and> \<not> includes_str (allowedChars rules) str
      \<longrightarrow> VerifyThis_string str rules = Inl (Error (CharNotAllowed (allowedChars rules))))
   \<and> (VerifyThis_string str rules = Inl (Error (CharNotAllowed cs))
      \<longrightarrow> maxChars rules = Some (Fin 1) \<and> \<not> includes_str (allowedChars rules) str)
   \<and> (maxChars rules \<noteq> Some (Fin 1)
      \<longrightarrow> VerifyThis_string str (rules\<lparr>allowedChars := cs\<rparr>) = VerifyThis_string str rules)"
proof -
  have a: "VerifyThis_string str rules = Inl (Error (CharNotAllowed (allowedChars rules)))"
    if "maxChars rules = Some (Fin 1)" "is_string str"
      "\<not> (\<not> s_canEmpty rules \<and> str_falsy str)"
      "\<forall>n. minChars rules = Some n \<longrightarrow> \<not> js_lt (str_length str) n"
      "\<not> js_gt (str_length str) (Fin 1)"
      "\<not> includes_str (allowedChars rules) str"
    using string_after_minChars[OF that(2,3,4)] that(1,5,6) by simp
  have b: "maxChars rules = Some (Fin 1) \<and> \<not> includes_str (allowedChars rules) str"
    if "VerifyThis_string str rules = Inl (Error (CharNotAllowed cs))"
    using that unfolding VerifyThis_string_def by (simp split: if_splits)
  have c: "VerifyThis_string str (rules\<lparr>allowedChars := cs\<rparr>) = VerifyThis_string str rules"
    if "maxChars rules \<noteq> Some (Fin 1)"
    using that unfolding VerifyThis_string_def by simp
  from a b c show ?thesis by blast
qed

theorem string_allow_list_check_witness:
  "maxChars (default_string_rules\<lparr>maxChars := Some (Fin 1), allowedChars := [''a'', ''b'']\<rparr>)
      = Some (Fin 1)
   \<and> is_string (JStr ''x'')
   \<and> \<not> (\<not> s_canEmpty (default_string_rules\<lparr>maxChars := Some (Fin 1),
                            allowedChars := [''a'', ''b'']\<rparr>) \<and> str_falsy (JStr ''x''))
   \<and> minChars (default_string_rules\<lparr>maxChars := Some (Fin 1),
                   allowedChars := [''a'', ''b'']\<rparr>) = None
   \<and> \<not> js_gt (str_length (JStr ''x'')) (Fin 1)
   \<and> \<not> includes_str (allowedChars (default_string_rules\<lparr>maxChars := Some (Fin 1),
                                       allowedChars := [''a'', ''b'']\<rparr>)) (JStr ''x'')
   \<and> VerifyThis_string (JStr ''x'')
         (default_string_rules\<lparr>maxChars := Some (Fin 1), allowedChars := [''a'', ''b'']\<rparr>)
        = Inl (Error (CharNotAllowed [''a'', ''b'']))
   \<and> VerifyThis_string (JStr ''a'')
         (default_string_rules\<lparr>maxChars := Some (Fin 1), allowedChars := [''a'', ''b'']\<rparr>)
        = Inr ()
   \<and> maxChars (default_string_rules\<lparr>maxChars := Some (Fin 8)\<rparr>) \<noteq> Some (Fin 1)
   \<and> VerifyThis_string (JStr ''x'')
         (default_string_rules\<lparr>maxChars := Some (Fin 8), allowedChars := [''a'', ''b'']\<rparr>)
        = VerifyThis_string (JStr ''x'') (default_string_rules\<lparr>maxChars := Some (Fin 8)\<rparr>)"
proof -
  let ?one = "default_string_rules\<lparr>maxChars := Some (Fin 1), allowedChars := [''a'', ''b'']\<rparr>"
  let ?eight = "default_string_rules\<lparr>maxChars := Some (Fin 8)\<rparr>"
  have h1: "maxChars ?one = Some (Fin 1)" by simp
  have h2: "is_string (JStr ''x'')" by simp
  have h3: "\<not> (\<not> s_canEmpty ?one \<and> str_falsy (JStr ''x''))" by simp
  have h4: "\<forall>n. minChars ?one = Some n \<longrightarrow> \<not> js_lt (str_length (JStr ''x'')) n"
    by (simp add: default_string_rules_def)
  have h5: "\<not> js_gt (str_length (JStr ''x'')) (Fin 1)" by (simp add: js_gt_def)
  have h6: "\<not> includes_str (allowedChars ?one) (JStr ''x'')" by simp
  have h7: "maxChars ?eight \<noteq> Some (Fin 1)" by simp
  have ok: "VerifyThis_string (JStr ''a'') ?one = Inr ()"
    by (simp add: VerifyThis_string_def default_string_rules_def truthy_num_def js_gt_def)
  from string_allow_list_check[where rules = ?one and str = "JStr ''x''"] h1 h2 h3 h4 h5 h6
  have r1: "VerifyThis_string (JStr ''x'') ?one = Inl (Error (CharNotAllowed [''a'', ''b'']))"
    by simp
  from string_allow_list_check[where rules = ?eight and str = "JStr ''x''"
         and cs = "[''a'', ''b'']"] h7
  have r2: "VerifyThis_string (JStr ''x'') (?eight\<lparr>allowedChars := [''a'', ''b'']\<rparr>)
              = VerifyThis_string (JStr ''x'') ?eight"
    by blast
  have unset: "minChars ?one = None" by (simp add: default_string_rules_def)
  from h1 h2 h3 unset h5 h6 h7 ok r1 r2 show ?thesis by simp
qed

text \<open>
  C8. A \<open>maxValue\<close> of 0 is not enforced: \<open>VerifyThis.number(5, {maxValue: 0})\<close>
  returns normally although \<open>5 > 0\<close>, because the guard \<open>maxValue && ...\<close> takes 0 for
  unset (the minimum check beside it has the extra test \<open>min === 0\<close>). A non-zero
  maximum is enforced.
\<close>

theorem number_maxValue_zero_not_enforced:
  "js_gt (Fin 5) (Fin 0)
   \<and> VerifyThis_number (JNum (Fin 5)) (default_number_rules\<lparr>maxValue := Some (Fin 0)\<rparr>)
        = Inr ()
   \<and> VerifyThis_number (JNum (Fin 5)) (default_number_rules\<lparr>maxValue := Some (Fin 3)\<rparr>)
        = Inl (RangeError (IsMoreThan ''Number'' (Fin 3)))"
  by (simp add: VerifyThis_number_def default_number_rules_def truthy_num_def js_gt_def)

text \<open>
  C9. For a non-empty array and a non-empty \<open>arrayOf\<close>, \<open>VerifyThis.array\<close> throws the
  \<open>TypeError\<close> naming the index of the first element whose \<open>typeof\<close> is not in
  \<open>arrayOf\<close>, together with \<open>arrayOf\<close>; when the \<open>typeof\<close> of every element is in
  \<open>arrayOf\<close> that error is not thrown, and the call returns normally when no element
  count is set. \<open>[1, 2]\<close> passes under \<open>arrayOf: ["number"]\<close> and \<open>[1, "x"]\<close> fails
  naming index 1.
\<close>

theorem array_element_type_check:
  assumes "xs \<noteq> []" and "arrayOf rules \<noteq> []"
  shows "(i < length xs \<and> typeof (xs ! i) \<notin> set (arrayOf rules)
            \<and> (\<forall>j<i. typeof (xs ! j) \<in> set (arrayOf rules))
          \<longrightarrow> VerifyThis_array (JArray xs) rules
                = Inl (TypeError (ElementIsNot i (arrayOf rules))))
     \<and> (list_all (\<lambda>e. typeof e \<in> set (arrayOf rules)) xs
          \<longrightarrow> (\<forall>k tys. VerifyThis_array (JArray xs) rules
                          \<noteq> Inl (TypeError (ElementIsNot k tys)))
              \<and> (minElements rules = None \<and> maxElements rules = None
                  \<longrightarrow> VerifyThis_array (JArray xs) rules = Inr ()))
     \<and> VerifyThis_array (JArray [JNum (Fin 1), JNum (Fin 2)])
          (default_array_rules\<lparr>arrayOf := [''number'']\<rparr>) = Inr ()
     \<and> VerifyThis_array (JArray [JNum (Fin 1), JStr ''x''])
          (default_array_rules\<lparr>arrayOf := [''number'']\<rparr>)
          = Inl (TypeError (ElementIsNot 1 [''number'']))"
proof -
  let ?p = "\<lambda>element. typeof element \<notin> set (arrayOf rules)"
  have len: "\<not> length xs < 1" "length (arrayOf rules) > 0" using assms by simp_all
  have bad: "VerifyThis_array (JArray xs) rules
               = Inl (TypeError (ElementIsNot i (arrayOf rules)))"
    if "i < length xs" "typeof (xs ! i) \<notin> set (arrayOf rules)"
       "\<forall>j<i. typeof (xs ! j) \<in> set (arrayOf rules)"
  proof -
    have "findIndex ?p xs = Some i"
      using that by (intro findIndex_first) simp_all
    then show ?thesis using len by (simp add: VerifyThis_array_def)
  qed
  have good: "(\<forall>k tys. VerifyThis_array (JArray xs) rules
                          \<noteq> Inl (TypeError (ElementIsNot k tys)))
              \<and> (minElements rules = None \<and> maxElements rules = None
                  \<longrightarrow> VerifyThis_array (JArray xs) rules = Inr ())"
    if "list_all (\<lambda>e. typeof e \<in> set (arrayOf rules)) xs"
  proof -
    from that have "findIndex ?p xs = None"
      by (simp add: findIndex_None_iff list_all_iff)
    then show ?thesis using len by (simp add: VerifyThis_array_def)
  qed
  have e1: "VerifyThis_array (JArray [JNum (Fin 1), JNum (Fin 2)])
          (default_array_rules\<lparr>arrayOf := [''number'']\<rparr>) = Inr ()"
    by (simp add: VerifyThis_array_def default_array_rules_def)
  have e2: "VerifyThis_array (JArray [JNum (Fin 1), JStr ''x''])
          (default_array_rules\<lparr>arrayOf := [''number'']\<rparr>)
          = Inl (TypeError (ElementIsNot 1 [''number'']))"
    by (simp add: VerifyThis_array_def default_array_rules_def)
  from bad good e1 e2 show ?thesis by blast
qed

theorem array_element_type_check_witness:
  "[JBool True, JNum (Fin 1), JStr ''x'', JNull] \<noteq> []
   \<and> arrayOf (default_array_rules\<lparr>arrayOf := [''number'', ''boolean'']\<rparr>) \<noteq> []
   \<and> (2::nat) < length [JBool True, JNum (Fin 1), JStr ''x'', JNull]
   \<and> typeof ([JBool True, JNum (Fin 1), JStr ''x'', JNull] ! 2)
        \<notin> set (arrayOf (default_array_rules\<lparr>arrayOf := [''number'', ''boolean'']\<rparr>))
   \<and> typeof ([JBool True, JNum (Fin 1), JStr ''x'', JNull] ! 0)
        \<in> set (arrayOf (default_array_rules\<lparr>arrayOf := [''number'', ''boolean'']\<rparr>))
   \<and> typeof ([JBool True, JNum (Fin 1), JStr ''x'', JNull] ! 1)
        \<in> set (arrayOf (default_array_rules\<lparr>arrayOf := [''number'', ''boolean'']\<rparr>))
   \<and> VerifyThis_array (JArray [JBool True, JNum (Fin 1), JStr ''x'', JNull])
        (default_array_rules\<lparr>arrayOf := [''number'', ''boolean'']\<rparr>)
        = Inl (TypeError (ElementIsNot 2 [''number'', ''boolean'']))
   \<and> [JBool True, JNum (Fin 1)] \<noteq> []
   \<and> list_all (\<lambda>e. typeof e
         \<in> set (arrayOf (default_array_rules\<lparr>arrayOf := [''number'', ''boolean'']\<rparr>)))
        [JBool True, JNum (Fin 1)]
   \<and> minElements (default_array_rules\<lparr>arrayOf := [''number'', ''boolean'']\<rparr>) = None
   \<and> maxElements (default_array_rules\<lparr>arrayOf := [''number'', ''boolean'']\<rparr>) = None
   \<and> VerifyThis_array (JArray [JBool True, JNum (Fin 1)])
        (default_array_rules\<lparr>arrayOf := [''number'', ''boolean'']\<rparr>) = Inr ()"
proof -
  let ?rules = "default_array_rules\<lparr>arrayOf := [''number'', ''boolean'']\<rparr>"
  let ?xs = "[JBool True, JNum (Fin 1), JStr ''x'', JNull]"
  let ?ys = "[JBool True, JNum (Fin 1)]"
  have ne: "?xs \<noteq> []" "?ys \<noteq> []" "arrayOf ?rules \<noteq> []" by simp_all
  have i: "(2::nat) < length ?xs" by simp
  have bad: "typeof (?xs ! 2) \<notin> set (arrayOf ?rules)" by simp
  have before: "\<forall>j<2. typeof (?xs ! j) \<in> set (arrayOf ?rules)"
    by (simp add: less_Suc_eq numeral_2_eq_2)
  have all: "list_all (\<lambda>e. typeof e \<in> set (arrayOf ?rules)) ?ys" by simp
  have unset: "minElements ?rules = None" "maxElements ?rules = None"
    by (simp_all add: default_array_rules_def)
  from array_element_type_check[OF ne(1,3), of 2] i bad before
  have r1: "VerifyThis_array (JArray ?xs) ?rules
              = Inl (TypeError (ElementIsNot 2 [''number'', ''boolean'']))"
    by simp
  from array_element_type_check[OF ne(2,3), of 0] all unset
  have r2: "VerifyThis_array (JArray ?ys) ?rules = Inr ()"
    by blast
  have b0: "typeof (?xs ! 0) \<in> set (arrayOf ?rules)"
    and b1: "typeof (?xs ! 1) \<in> set (arrayOf ?rules)" by simp_all
  from ne i bad b0 b1 all unset r1 r2 show ?thesis by blast
qed

text \<open>
  C10. \<open>VerifyThis.number\<close> accepts \<open>NaN\<close>: with an empty \<open>allowedNums\<close> and any
  \<open>min\<close> and \<open>maxValue\<close>, set or not, the call returns normally.
\<close>

theorem number_accepts_NaN:
  assumes "allowedNums rules = []"
  shows "VerifyThis_number (JNum NaN) rules = Inr ()"
  using assms by (simp add: VerifyThis_number_def js_gt_def js_lt_NaN_right)

theorem number_accepts_NaN_witness:
  "allowedNums (default_number_rules\<lparr>n_min := Some (Fin 0), maxValue := Some (Fin 10)\<rparr>) = []
   \<and> VerifyThis_number (JNum NaN)
        (default_number_rules\<lparr>n_min := Some (Fin 0), maxValue := Some (Fin 10)\<rparr>) = Inr ()"
proof -
  have h: "allowedNums (default_number_rules\<lparr>n_min := Some (Fin 0), maxValue := Some (Fin 10)\<rparr>)
             = []"
    by (simp add: default_number_rules_def)
  from number_accepts_NaN[OF h] h show ?thesis by blast
qed

end
